theory Spec2Isabelle
  imports Main
begin

section \<open>Python primitives used by the downloader\<close>

text \<open>
  Python strings are modelled as \<^typ>\<open>string\<close>; a \<^typ>\<open>char\<close> stands for a code point
  below 256. Python integers are unbounded, hence \<^typ>\<open>int\<close>. The interpreter's limit on the
  number of digits converted between \<open>str\<close> and \<open>int\<close> is outside the model.
\<close>

datatype error =
    ValueError
  | IndexError
  | KeyError
  | ClientError
  | ClientResponseError
  | FileNotFoundError
  | ExceptionGroup "error list"

definition isspace :: "char \<Rightarrow> bool" where
  \<comment> \<open>\<open>str.isspace\<close> on one character: what \<open>str.split()\<close> and \<open>str.strip()\<close> remove.\<close>
  "isspace c = (of_char c \<in> {9, 10, 11, 12, 13, 28, 29, 30, 31, 32, 133, 160 :: nat})"

definition int_space :: "char \<Rightarrow> bool" where
  \<comment> \<open>The white space \<open>int(str)\<close> skips around a number: the separators 28 to 31 are
      not part of it.\<close>
  "int_space c = (of_char c \<in> {9, 10, 11, 12, 13, 32, 133, 160 :: nat})"

definition isdigit :: "char \<Rightarrow> bool" where
  "isdigit c = (48 \<le> (of_char c :: nat) \<and> (of_char c :: nat) \<le> 57)"

definition digit_value :: "char \<Rightarrow> nat" where
  "digit_value c = of_char c - 48"

definition strip_by :: "(char \<Rightarrow> bool) \<Rightarrow> string \<Rightarrow> string" where
  "strip_by p s = rev (dropWhile p (rev (dropWhile p s)))"

definition strip :: "string \<Rightarrow> string" where
  \<comment> \<open>\<open>str.strip()\<close>\<close>
  "strip s = strip_by isspace s"

fun split_sep :: "char \<Rightarrow> string \<Rightarrow> string list" where
  \<comment> \<open>\<open>s.split(sep)\<close> for a separator of one character: always at least one field.\<close>
  "split_sep sep [] = [ []]"
| "split_sep sep (c # cs) =
     (if c = sep then [] # split_sep sep cs
      else (case split_sep sep cs of
              [] \<Rightarrow> [ [c]]
            | w # ws \<Rightarrow> (c # w) # ws))"

fun split_ws :: "string \<Rightarrow> string list" where
  \<comment> \<open>\<open>s.split()\<close>: the maximal runs of characters that are not white space.\<close>
  "split_ws [] = []"
| "split_ws (c # cs) =
     (if isspace c then split_ws cs
      else (case cs of
              [] \<Rightarrow> [ [c]]
            | d # _ \<Rightarrow>
                if isspace d then [c] # split_ws cs
                else (case split_ws cs of
                        [] \<Rightarrow> [ [c]]
                      | w # ws \<Rightarrow> (c # w) # ws)))"

fun int_digits :: "nat \<Rightarrow> string \<Rightarrow> nat option" where
  \<comment> \<open>The digits of a decimal literal, read left to right into the accumulator; one
      underscore is allowed between two digits.\<close>
  "int_digits acc [] = Some acc"
| "int_digits acc (c # cs) =
     (if isdigit c then int_digits (10 * acc + digit_value c) cs
      else if c = CHR ''_'' then
        (case cs of
           [] \<Rightarrow> None
         | d # _ \<Rightarrow> if isdigit d then int_digits acc cs else None)
      else None)"

definition int_unsigned :: "string \<Rightarrow> nat option" where
  "int_unsigned s =
     (case s of
        [] \<Rightarrow> None
      | c # _ \<Rightarrow> if isdigit c then int_digits 0 s else None)"

definition py_int :: "string \<Rightarrow> int option" where
  \<comment> \<open>\<open>int(s)\<close> for a string, base 10; \<open>None\<close> is the \<open>ValueError\<close>.\<close>
  "py_int s =
     (case strip_by int_space s of
        [] \<Rightarrow> None
      | c # cs \<Rightarrow>
          if c = CHR ''-'' then map_option (\<lambda>n. - int n) (int_unsigned cs)
          else if c = CHR ''+'' then map_option int (int_unsigned cs)
          else map_option int (int_unsigned (c # cs)))"

definition digit_char :: "nat \<Rightarrow> char" where
  "digit_char d = char_of (48 + d)"

fun nat_digits :: "nat \<Rightarrow> string" where
  "nat_digits n =
     (if n < 10 then [digit_char n] else nat_digits (n div 10) @ [digit_char (n mod 10)])"

declare nat_digits.simps [simp del]

definition str_int :: "int \<Rightarrow> string" where
  \<comment> \<open>\<open>str(i)\<close> for an integer.\<close>
  "str_int i = (if i < 0 then CHR ''-'' # nat_digits (nat (- i)) else nat_digits (nat i))"

section \<open>Builds, distributions and versions\<close>

datatype FactorioBuild = ALPHA | EXPANSION | DEMO | HEADLESS

fun build_value :: "FactorioBuild \<Rightarrow> string" where
  "build_value ALPHA = ''alpha''"
| "build_value EXPANSION = ''expansion''"
| "build_value DEMO = ''demo''"
| "build_value HEADLESS = ''headless''"

datatype FactorioDistro = WIN64 | WIN64_MANUAL | OSX | LINUX64

fun distro_value :: "FactorioDistro \<Rightarrow> string" where
  "distro_value WIN64 = ''win64''"
| "distro_value WIN64_MANUAL = ''win64-manual''"
| "distro_value OSX = ''osx''"
| "distro_value LINUX64 = ''linux64''"

fun EXTENSION_FOR_DISTRO :: "FactorioDistro \<Rightarrow> string" where
  "EXTENSION_FOR_DISTRO WIN64 = ''exe''"
| "EXTENSION_FOR_DISTRO WIN64_MANUAL = ''zip''"
| "EXTENSION_FOR_DISTRO OSX = ''dmg''"
| "EXTENSION_FOR_DISTRO LINUX64 = ''tar.gz''"

record FactorioVersion =
  major :: int
  minor :: int
  patch :: int

definition version_less :: "FactorioVersion \<Rightarrow> FactorioVersion \<Rightarrow> bool" where
  \<comment> \<open>\<open><\<close> of the named tuple: lexicographic on (major, minor, patch).\<close>
  "version_less a b =
     (major a < major b \<or>
      (major a = major b \<and> (minor a < minor b \<or> (minor a = minor b \<and> patch a < patch b))))"

fun int_all :: "string list \<Rightarrow> int list option" where
  \<comment> \<open>\<open>[int(v) for v in fields]\<close>: the first field that is not an integer raises.\<close>
  "int_all [] = Some []"
| "int_all (f # fs) =
     (case py_int f of
        None \<Rightarrow> None
      | Some i \<Rightarrow> (case int_all fs of None \<Rightarrow> None | Some is \<Rightarrow> Some (i # is)))"

definition from_str :: "string \<Rightarrow> error + FactorioVersion" where
  "from_str s =
     (case int_all (split_sep (CHR ''.'') s) of
        None \<Rightarrow> Inl ValueError
      | Some version_list \<Rightarrow>
          (case version_list of
             [a, b, c] \<Rightarrow> Inr \<lparr>major = a, minor = b, patch = c\<rparr>
           | _ \<Rightarrow> Inl ValueError))"

definition FactorioVersion_str :: "FactorioVersion \<Rightarrow> string" where
  \<comment> \<open>\<open>FactorioVersion.__str__\<close>\<close>
  "FactorioVersion_str v = str_int (major v) @ ''.'' @ str_int (minor v) @ ''.'' @ str_int (patch v)"

section \<open>Files, network and console\<close>

text \<open>
  A path is the list of its components, so \<open>dir / name\<close> appends one component and
  \<open>path.name\<close> is the last one. The file system maps the paths of regular files to their
  content. Every effect of a run is appended to a log, in the order the code performs it.
\<close>

type_synonym path = "string list"

definition path_div :: "path \<Rightarrow> string \<Rightarrow> path" where
  "path_div dir name = dir @ [name]"

fun path_str :: "path \<Rightarrow> string" where
  "path_str [] = ''.''"
| "path_str [c] = c"
| "path_str (c # cs) = c @ ''/'' @ path_str cs"

datatype event =
    HttpGet string "(string \<times> string) list"
  | Unlink path
  | OpenWb path
  | Rename path path
  | WriteText path string
  | Print string
  | AddTask FactorioDistro string
  | Total FactorioDistro int
  | Advance FactorioDistro nat
  | Description FactorioDistro string

record state =
  files :: "path \<rightharpoonup> string"
  log :: "event list"

text \<open>
  What the two servers answer is an input of the run. \<open>stable\<close> is the \<open>stable\<close> object of
  the latest-releases document (\<open>None\<close> when the request or its decoding fails). A download
  request either fails before a response arrives or yields a response: \<open>ok\<close> is what
  \<open>raise_for_status\<close> tests, \<open>content_length\<close> the header if present, \<open>chunks\<close> the body as
  \<open>iter_chunked\<close> delivers it, and \<open>broken\<close> says that the stream raises after these chunks.
\<close>

datatype reply =
    ConnectionFailed
  | Response (ok: bool) (content_length: "string option") (chunks: "string list") (broken: bool)

record world =
  stable :: "(string \<rightharpoonup> string) option"
  server :: "string \<Rightarrow> reply"

definition LATEST_RELEASE_URL :: string where
  "LATEST_RELEASE_URL = ''https://factorio.com/api/latest-releases''"

definition DOWNLOAD_URL_TEMPLATE :: "string \<Rightarrow> string \<Rightarrow> string \<Rightarrow> string" where
  \<comment> \<open>\<open>DOWNLOAD_URL_TEMPLATE.format(version=..., build=..., distro=...)\<close>\<close>
  "DOWNLOAD_URL_TEMPLATE version build distro =
     ''https://www.factorio.com/get-download/'' @ version @ ''/'' @ build @ ''/'' @ distro"

definition DOWNLOADED_VERSION_FILE :: string where
  "DOWNLOADED_VERSION_FILE = ''version.txt''"

definition emit :: "event \<Rightarrow> state \<Rightarrow> state" where
  "emit e s = s\<lparr>log := log s @ [e]\<rparr>"

definition unlink :: "path \<Rightarrow> state \<Rightarrow> state" where
  \<comment> \<open>\<open>p.unlink(missing_ok=True)\<close>\<close>
  "unlink p s = emit (Unlink p) (s\<lparr>files := (files s)(p := None)\<rparr>)"

definition open_wb :: "path \<Rightarrow> state \<Rightarrow> state" where
  \<comment> \<open>\<open>p.open("wb")\<close>: the file is created, or truncated.\<close>
  "open_wb p s = emit (OpenWb p) (s\<lparr>files := (files s)(p \<mapsto> [])\<rparr>)"

definition write_chunk :: "path \<Rightarrow> string \<Rightarrow> state \<Rightarrow> state" where
  \<comment> \<open>\<open>f.write(chunk)\<close> on the file opened at \<open>p\<close>\<close>
  "write_chunk p chunk s =
     s\<lparr>files := (files s)(p \<mapsto> (case files s p of None \<Rightarrow> [] | Some old \<Rightarrow> old) @ chunk)\<rparr>"

definition rename :: "path \<Rightarrow> path \<Rightarrow> state \<Rightarrow> error + state" where
  \<comment> \<open>\<open>src.rename(dst)\<close>\<close>
  "rename src dst s =
     (case files s src of
        None \<Rightarrow> Inl FileNotFoundError
      | Some content \<Rightarrow>
          Inr (emit (Rename src dst) (s\<lparr>files := ((files s)(src := None))(dst \<mapsto> content)\<rparr>)))"

definition write_text :: "path \<Rightarrow> string \<Rightarrow> state \<Rightarrow> state" where
  "write_text p text s = emit (WriteText p text) (s\<lparr>files := (files s)(p \<mapsto> text)\<rparr>)"

section \<open>Reading the two versions\<close>

definition get_latest_version :: "world \<Rightarrow> FactorioBuild \<Rightarrow> state \<Rightarrow> (error + FactorioVersion) \<times> state" where
  "get_latest_version w build s =
     (let s1 = emit (HttpGet LATEST_RELEASE_URL []) s in
      case stable w of
        None \<Rightarrow> (Inl ClientError, s1)
      | Some version_info \<Rightarrow>
          (case version_info (build_value build) of
             None \<Rightarrow> (Inl KeyError, s1)
           | Some version_str \<Rightarrow> (from_str version_str, s1)))"

definition get_downloaded_version :: "path \<Rightarrow> state \<Rightarrow> error + FactorioVersion option" where
  "get_downloaded_version version_file s =
     (case files s version_file of
        None \<Rightarrow> Inr None
      | Some text \<Rightarrow>
          (case split_ws text of
             [] \<Rightarrow> Inl IndexError
           | token # _ \<Rightarrow>
               (case from_str (strip token) of
                  Inl e \<Rightarrow> Inl e
                | Inr v \<Rightarrow> Inr (Some v))))"

section \<open>The run\<close>

datatype requested = Latest | Version FactorioVersion

fun requested_str :: "requested \<Rightarrow> string" where
  \<comment> \<open>\<open>requested_version\<close> formatted into a string: the token itself, or the version.\<close>
  "requested_str Latest = ''latest''"
| "requested_str (Version v) = FactorioVersion_str v"

record args =
  build :: FactorioBuild
  version :: string
  distro :: "FactorioDistro list"
  outdir :: path
  tempdir :: "path option"
  username :: string
  token :: string

datatype outcome = Returned | Exit int | Raised error

fun stream :: "path \<Rightarrow> FactorioDistro \<Rightarrow> string list \<Rightarrow> state \<Rightarrow> state" where
  \<comment> \<open>The loop over \<open>iter_chunked\<close>: write the chunk, advance the progress by its length.\<close>
  "stream download_file d [] s = s"
| "stream download_file d (chunk # rest) s =
     stream download_file d rest (emit (Advance d (length chunk)) (write_chunk download_file chunk s))"

definition save_file_of :: "path \<Rightarrow> FactorioDistro \<Rightarrow> path" where
  "save_file_of save_dir d = path_div save_dir (distro_value d @ ''.'' @ EXTENSION_FOR_DISTRO d)"

definition download_file_of :: "path \<Rightarrow> path \<Rightarrow> FactorioDistro \<Rightarrow> path" where
  "download_file_of save_dir download_dir d =
     path_div download_dir (last (save_file_of save_dir d) @ ''.tmp'')"

definition download ::
  "world \<Rightarrow> requested \<Rightarrow> FactorioBuild \<Rightarrow> path \<Rightarrow> path \<Rightarrow> string \<Rightarrow> string \<Rightarrow>
   FactorioDistro \<Rightarrow> state \<Rightarrow> (error + unit) \<times> state" where
  "download w requested_version bld save_dir download_dir user tok d s =
     (let download_url =
            DOWNLOAD_URL_TEMPLATE (requested_str requested_version) (build_value bld) (distro_value d);
          save_file = save_file_of save_dir d;
          download_file = download_file_of save_dir download_dir d;
          s1 = unlink download_file s;
          s2 = emit (AddTask d (''Downloading '' @ requested_str requested_version @ ''/''
                                  @ build_value bld @ ''/'' @ distro_value d)) s1;
          s3 = emit (HttpGet download_url [(''username'', user), (''token'', tok)]) s2
      in case server w download_url of
           ConnectionFailed \<Rightarrow> (Inl ClientError, s3)
         | Response status_ok header body dies \<Rightarrow>
             if \<not> status_ok then (Inl ClientResponseError, s3)
             else
               (case (case header of None \<Rightarrow> Some 0 | Some h \<Rightarrow> py_int h) of
                  None \<Rightarrow> (Inl ValueError, s3)
                | Some total_size \<Rightarrow>
                    (let s4 = emit (Total d total_size) s3;
                         s5 = open_wb download_file s4;
                         s6 = stream download_file d body s5
                     in if dies then (Inl ClientError, s6)
                        else
                          (case rename download_file save_file (unlink save_file s6) of
                             Inl e \<Rightarrow> (Inl e, unlink save_file s6)
                           | Inr s7 \<Rightarrow>
                               (Inr (),
                                emit (Description d
                                        (''Saved '' @ requested_str requested_version @ ''/''
                                           @ build_value bld @ ''/'' @ distro_value d @ '' to ''
                                           @ path_str save_file)) s7)))))"

fun task_group ::
  "(FactorioDistro \<Rightarrow> state \<Rightarrow> (error + unit) \<times> state) \<Rightarrow> FactorioDistro list \<Rightarrow> state \<Rightarrow>
   error list \<times> state" where
  \<comment> \<open>One task per requested distribution; the group waits for all of them and collects
      the errors of those that failed. The tasks are run one after the other, in the order
      they are created: their interleaving is not modelled. A task that the group cancels
      because another one failed ends like one whose request fails or whose stream breaks.\<close>
  "task_group task [] s = ([], s)"
| "task_group task (d # ds) s =
     (case task d s of
        (r, s1) \<Rightarrow>
          (case task_group task ds s1 of
             (errs, s2) \<Rightarrow> ((case r of Inl e \<Rightarrow> e # errs | Inr _ \<Rightarrow> errs), s2)))"

definition parse_requested :: "string \<Rightarrow> error + requested" where
  \<comment> \<open>\<open>main\<close>, the block that turns \<open>--version\<close> into \<open>requested_version\<close>\<close>
  "parse_requested version_str =
     (if version_str = ''latest'' then Inr Latest
      else (case from_str version_str of Inl e \<Rightarrow> Inl e | Inr v \<Rightarrow> Inr (Version v)))"

definition reconcile ::
  "world \<Rightarrow> FactorioBuild \<Rightarrow> requested \<Rightarrow> FactorioVersion option \<Rightarrow> state \<Rightarrow>
   outcome option \<times> state" where
  \<comment> \<open>\<open>main\<close>, the block under \<open>if downloaded_version is not None\<close>: \<open>Some\<close> ends the
      run there, \<open>None\<close> falls through to the downloads.\<close>
  "reconcile w bld requested_version downloaded_version s =
     (case downloaded_version of
        None \<Rightarrow> (None, s)
      | Some dv \<Rightarrow>
          (case requested_version of
             Latest \<Rightarrow>
               (case get_latest_version w bld s of
                  (Inl e, s1) \<Rightarrow> (Some (Raised e), s1)
                | (Inr latest_version, s1) \<Rightarrow>
                    if latest_version = dv then
                      (Some (Exit 0),
                       emit (Print (''Latest version '' @ FactorioVersion_str latest_version
                                      @ '' is already downloaded, nothing to do.'')) s1)
                    else if version_less latest_version dv then
                      (Some (Exit (- 10)),
                       emit (Print ''Latest version is older than the downloaded version, wtf?'') s1)
                    else (None, s1))
           | Version rv \<Rightarrow>
               if dv = rv then
                 (Some (Exit 0),
                  emit (Print (''Requested version '' @ FactorioVersion_str rv
                                 @ '' is already downloaded, nothing to do.'')) s)
               else (None, s)))"

definition version_file_of :: "args \<Rightarrow> path" where
  \<comment> \<open>\<open>version_file = save_dir / DOWNLOADED_VERSION_FILE\<close>\<close>
  "version_file_of a = path_div (outdir a) DOWNLOADED_VERSION_FILE"

definition download_dir_of :: "args \<Rightarrow> path" where
  \<comment> \<open>\<open>download_dir\<close>: \<open>--tempdir\<close>, or the output directory when it is not given.\<close>
  "download_dir_of a = (case tempdir a of None \<Rightarrow> outdir a | Some t \<Rightarrow> t)"

definition run_tasks :: "world \<Rightarrow> args \<Rightarrow> requested \<Rightarrow> state \<Rightarrow> error list \<times> state" where
  \<comment> \<open>The task group of \<open>main\<close> with one \<open>download\<close> task for each entry of \<open>distros\<close>.\<close>
  "run_tasks w a requested_version s =
     task_group
       (download w requested_version (build a) (outdir a) (download_dir_of a) (username a) (token a))
       (distro a) s"

definition marker_text :: "requested \<Rightarrow> FactorioVersion option \<Rightarrow> string" where
  \<comment> \<open>The text of the last statement of \<open>main\<close>,
      \<open>f"{downloaded_version if downloaded_version else requested_version}\n"\<close>:
      a version is a tuple of three fields and so always true, \<open>None\<close> is false.\<close>
  "marker_text requested_version downloaded_version =
     (case downloaded_version of
        Some dv \<Rightarrow> FactorioVersion_str dv
      | None \<Rightarrow> requested_str requested_version) @ [CHR 0x0A]"

definition fan_out ::
  "world \<Rightarrow> args \<Rightarrow> requested \<Rightarrow> FactorioVersion option \<Rightarrow> state \<Rightarrow> outcome \<times> state" where
  \<comment> \<open>\<open>main\<close> from the removal of the version file to the end.\<close>
  "fan_out w a requested_version downloaded_version s =
     (case run_tasks w a requested_version (unlink (version_file_of a) s) of
        (errs, s2) \<Rightarrow>
          if errs \<noteq> [] then (Raised (ExceptionGroup errs), s2)
          else
            (Returned,
             write_text (version_file_of a) (marker_text requested_version downloaded_version) s2))"

definition main :: "world \<Rightarrow> args \<Rightarrow> state \<Rightarrow> outcome \<times> state" where
  "main w a s =
     (case parse_requested (version a) of
        Inl e \<Rightarrow> (Raised e, s)
      | Inr requested_version \<Rightarrow>
          (case get_downloaded_version (version_file_of a) s of
             Inl e \<Rightarrow> (Raised e, s)
           | Inr downloaded_version \<Rightarrow>
               (case reconcile w (build a) requested_version downloaded_version s of
                  (Some out, s1) \<Rightarrow> (out, s1)
                | (None, s1) \<Rightarrow> fan_out w a requested_version downloaded_version s1)))"

section \<open>Observations on a log\<close>

fun request_url :: "event \<Rightarrow> string list" where
  "request_url (HttpGet url params) = [url]"
| "request_url _ = []"

definition gets :: "event list \<Rightarrow> string list" where
  \<comment> \<open>The URLs requested, in the order of the requests.\<close>
  "gets es = concat (map request_url es)"

fun advance_of :: "event \<Rightarrow> nat" where
  "advance_of (Advance d n) = n"
| "advance_of _ = 0"

definition advanced :: "event list \<Rightarrow> nat" where
  \<comment> \<open>The sum of the amounts by which the progress was advanced.\<close>
  "advanced es = sum_list (map advance_of es)"

fun touches :: "path \<Rightarrow> event \<Rightarrow> bool" where
  \<comment> \<open>The event is a file operation on the path.\<close>
  "touches p (Unlink q) = (q = p)"
| "touches p (OpenWb q) = (q = p)"
| "touches p (Rename src dst) = (src = p \<or> dst = p)"
| "touches p (WriteText q text) = (q = p)"
| "touches p _ = False"

definition events_since :: "state \<Rightarrow> state \<Rightarrow> event list" where
  \<comment> \<open>What a step from \<open>s\<close> to \<open>s'\<close> appended to the log.\<close>
  "events_since s s' = drop (length (log s)) (log s')"

definition task_result :: "world \<Rightarrow> requested \<Rightarrow> FactorioBuild \<Rightarrow> FactorioDistro \<Rightarrow> error + unit" where
  \<comment> \<open>How the download task of a distribution ends, read off the server's reply alone.\<close>
  "task_result w requested_version bld d =
     (case server w (DOWNLOAD_URL_TEMPLATE (requested_str requested_version) (build_value bld)
                       (distro_value d)) of
        ConnectionFailed \<Rightarrow> Inl ClientError
      | Response status_ok header body dies \<Rightarrow>
          if \<not> status_ok then Inl ClientResponseError
          else if (case header of None \<Rightarrow> Some 0 | Some h \<Rightarrow> py_int h) = None then Inl ValueError
          else if dies then Inl ClientError
          else Inr ())"

fun failures :: "(error + unit) list \<Rightarrow> error list" where
  "failures [] = []"
| "failures (Inl e # rs) = e # failures rs"
| "failures (Inr u # rs) = failures rs"

section \<open>Scenarios\<close>

text \<open>
  Concrete inputs on which the run is evaluated: the output directory \<open>out\<close>, the default
  build, a version file with a given content (or none), and servers that answer every
  download with a body of five bytes in two chunks, or refuse one of them.
\<close>

definition ex_args :: "string \<Rightarrow> FactorioDistro list \<Rightarrow> args" where
  "ex_args version_str distros =
     \<lparr>build = EXPANSION, version = version_str, distro = distros, outdir = [''out''],
      tempdir = None, username = ''user'', token = ''secret''\<rparr>"

definition ex_state :: "string option \<Rightarrow> state" where
  "ex_state marker =
     \<lparr>files = (case marker of None \<Rightarrow> Map.empty | Some text \<Rightarrow> [ [''out'', ''version.txt''] \<mapsto> text]),
      log = []\<rparr>"

definition good_reply :: reply where
  "good_reply = Response True (Some ''5'') [''abc'', ''de''] False"

definition bad_reply :: reply where
  "bad_reply = Response False None [] False"

definition ex_world :: "string \<Rightarrow> world" where
  \<comment> \<open>The latest release of the build is the given string; every download succeeds.\<close>
  "ex_world latest = \<lparr>stable = Some [''expansion'' \<mapsto> latest], server = (\<lambda>url. good_reply)\<rparr>"

definition ex_world_osx_refused :: "string \<Rightarrow> world" where
  \<comment> \<open>As \<open>ex_world\<close>, but the download for \<open>osx\<close> is answered with an error status.\<close>
  "ex_world_osx_refused latest =
     \<lparr>stable = Some [''expansion'' \<mapsto> latest],
      server = (\<lambda>url. if url = DOWNLOAD_URL_TEMPLATE ''latest'' ''expansion'' ''osx''
                        then bad_reply else good_reply)\<rparr>"

section \<open>Facts about the Python primitives\<close>

lemma digit_char_table:
  "digit_char 0 = CHR ''0''" "digit_char 1 = CHR ''1''" "digit_char 2 = CHR ''2''"
  "digit_char 3 = CHR ''3''" "digit_char 4 = CHR ''4''" "digit_char 5 = CHR ''5''"
  "digit_char 6 = CHR ''6''" "digit_char 7 = CHR ''7''" "digit_char 8 = CHR ''8''"
  "digit_char 9 = CHR ''9''" "digit_char (Suc 0) = CHR ''1''"
  by (simp_all add: digit_char_def of_char_eq_iff [where ?'a = nat, symmetric])

lemma isdigit_digit_char: "d < 10 \<Longrightarrow> isdigit (digit_char d)"
  by (simp add: isdigit_def digit_char_def)

lemma digit_value_digit_char: "d < 10 \<Longrightarrow> digit_value (digit_char d) = d"
  by (simp add: digit_value_def digit_char_def)

lemma nat_digits_isdigit: "c \<in> set (nat_digits n) \<Longrightarrow> isdigit c"
proof (induction n rule: nat_digits.induct)
  case (1 n)
  show ?case
  proof (cases "n < 10")
    case True
    with "1.prems" show ?thesis
      by (simp add: nat_digits.simps [of n] isdigit_digit_char)
  next
    case False
    with "1.prems" "1.IH" show ?thesis
      by (auto simp add: nat_digits.simps [of n] isdigit_digit_char)
  qed
qed

lemma nat_digits_not_Nil: "nat_digits n \<noteq> []"
  by (subst nat_digits.simps) simp

lemma int_digits_isdigit:
  "\<forall>c \<in> set ds. isdigit c \<Longrightarrow>
   int_digits acc ds = Some (foldl (\<lambda>a c. 10 * a + digit_value c) acc ds)"
  by (induction ds arbitrary: acc) simp_all

lemma foldl_nat_digits: "foldl (\<lambda>a c. 10 * a + digit_value c) 0 (nat_digits n) = n"
proof (induction n rule: nat_digits.induct)
  case (1 n)
  show ?case
  proof (cases "n < 10")
    case True
    then show ?thesis
      by (simp add: nat_digits.simps [of n] digit_value_digit_char)
  next
    case False
    with "1.IH" show ?thesis
      by (simp add: nat_digits.simps [of n] digit_value_digit_char)
  qed
qed

lemma int_unsigned_nat_digits: "int_unsigned (nat_digits n) = Some n"
proof -
  have all: "\<forall>c \<in> set (nat_digits n). isdigit c"
    by (simp add: nat_digits_isdigit)
  then have "int_digits 0 (nat_digits n) = Some n"
    using int_digits_isdigit [of "nat_digits n" 0] by (simp add: foldl_nat_digits)
  with all nat_digits_not_Nil [of n] show ?thesis
    by (auto simp add: int_unsigned_def split: list.splits)
qed

lemma dropWhile_no_match: "\<forall>c \<in> set s. \<not> p c \<Longrightarrow> dropWhile p s = s"
  by (cases s) auto

lemma strip_by_no_match: "\<forall>c \<in> set s. \<not> p c \<Longrightarrow> strip_by p s = s"
  by (simp add: strip_by_def dropWhile_no_match)

lemma isdigit_not_int_space: "isdigit c \<Longrightarrow> \<not> int_space c"
  by (auto simp add: isdigit_def int_space_def)

lemma isdigit_not_special: "isdigit c \<Longrightarrow> c \<noteq> CHR ''-'' \<and> c \<noteq> CHR ''+'' \<and> c \<noteq> CHR ''.''"
  by (auto simp add: isdigit_def)

lemma py_int_nat_digits: "py_int (nat_digits n) = Some (int n)"
proof -
  have "\<forall>c \<in> set (nat_digits n). \<not> int_space c"
    by (simp add: nat_digits_isdigit isdigit_not_int_space)
  then have st: "strip_by int_space (nat_digits n) = nat_digits n"
    by (rule strip_by_no_match)
  obtain c cs where eq: "nat_digits n = c # cs"
    using nat_digits_not_Nil [of n] by (cases "nat_digits n") auto
  then have "isdigit c"
    using nat_digits_isdigit [of c n] by simp
  then have "c \<noteq> CHR ''-''" "c \<noteq> CHR ''+''"
    by (simp_all add: isdigit_not_special)
  then have "py_int (nat_digits n) = map_option int (int_unsigned (nat_digits n))"
    unfolding py_int_def st by (simp add: eq)
  then show ?thesis
    by (simp add: int_unsigned_nat_digits)
qed

lemma py_int_minus_nat_digits: "py_int (CHR ''-'' # nat_digits n) = Some (- int n)"
proof -
  have "\<not> int_space (CHR ''-'')"
    by (simp add: int_space_def)
  then have "\<forall>c \<in> set (CHR ''-'' # nat_digits n). \<not> int_space c"
    by (simp add: nat_digits_isdigit isdigit_not_int_space)
  then have st: "strip_by int_space (CHR ''-'' # nat_digits n) = CHR ''-'' # nat_digits n"
    by (rule strip_by_no_match)
  show ?thesis
    by (simp add: py_int_def st int_unsigned_nat_digits)
qed

lemma py_int_str_int: "py_int (str_int i) = Some i"
  by (simp add: str_int_def py_int_nat_digits py_int_minus_nat_digits)

lemma dot_notin_str_int: "CHR ''.'' \<notin> set (str_int i)"
  using nat_digits_isdigit isdigit_not_special by (auto simp add: str_int_def)

lemma split_sep_not_Nil: "split_sep sep s \<noteq> []"
  by (induction s) (auto split: list.splits)

lemma split_sep_no_sep: "sep \<notin> set xs \<Longrightarrow> split_sep sep xs = [xs]"
  by (induction xs) auto

lemma split_sep_append: "sep \<notin> set xs \<Longrightarrow> split_sep sep (xs @ sep # ys) = xs # split_sep sep ys"
  by (induction xs) (auto simp add: split_sep_not_Nil split: list.splits)

lemma set_strip_by: "set (strip_by p s) \<subseteq> set s"
proof -
  have "set (dropWhile p (rev (dropWhile p s))) \<subseteq> set (rev (dropWhile p s))"
    by (auto dest: set_dropWhileD)
  also have "\<dots> \<subseteq> set s"
    by (auto dest: set_dropWhileD)
  finally show ?thesis
    by (simp add: strip_by_def)
qed

lemma py_int_nonneg:
  assumes "py_int s = Some n" and "CHR ''-'' \<notin> set s"
  shows "0 \<le> n"
proof (cases "strip_by int_space s")
  case Nil
  with assms(1) show ?thesis
    by (simp add: py_int_def)
next
  case (Cons c cs)
  then have "c \<in> set s"
    using set_strip_by [of int_space s] by auto
  with assms(2) have "c \<noteq> CHR ''-''"
    by auto
  with assms(1) Cons show ?thesis
    by (auto simp add: py_int_def split: if_splits)
qed

lemma set_split_sep: "f \<in> set (split_sep sep s) \<Longrightarrow> set f \<subseteq> set s"
proof (induction s arbitrary: f)
  case Nil
  then show ?case by simp
next
  case (Cons c cs)
  then show ?case
    by (fastforce split: if_splits list.splits)
qed

lemma int_all_three:
  "int_all [a, b, c] =
     (case py_int a of None \<Rightarrow> None
      | Some x \<Rightarrow> (case py_int b of None \<Rightarrow> None
          | Some y \<Rightarrow> (case py_int c of None \<Rightarrow> None | Some z \<Rightarrow> Some [x, y, z])))"
  by (simp split: option.splits)

lemma length_int_all: "int_all fs = Some is \<Longrightarrow> length is = length fs"
  by (induction fs arbitrary: "is") (auto split: option.splits)

lemma from_str_Inr_iff:
  "from_str s = Inr v \<longleftrightarrow>
     (\<exists>a b c. split_sep (CHR ''.'') s = [a, b, c] \<and> py_int a = Some (major v) \<and>
        py_int b = Some (minor v) \<and> py_int c = Some (patch v))"
proof
  assume ok: "from_str s = Inr v"
  then obtain x y z where il: "int_all (split_sep (CHR ''.'') s) = Some [x, y, z]"
    and v: "v = \<lparr>major = x, minor = y, patch = z\<rparr>"
    by (auto simp add: from_str_def split: option.splits list.splits)
  from length_int_all [OF il] have "length (split_sep (CHR ''.'') s) = Suc (Suc (Suc 0))"
    by simp
  then obtain a b c where sp: "split_sep (CHR ''.'') s = [a, b, c]"
    by (auto simp add: length_Suc_conv)
  with il v show "\<exists>a b c. split_sep (CHR ''.'') s = [a, b, c] \<and> py_int a = Some (major v) \<and>
        py_int b = Some (minor v) \<and> py_int c = Some (patch v)"
    by (auto simp add: int_all_three split: option.splits)
next
  assume "\<exists>a b c. split_sep (CHR ''.'') s = [a, b, c] \<and> py_int a = Some (major v) \<and>
        py_int b = Some (minor v) \<and> py_int c = Some (patch v)"
  then show "from_str s = Inr v"
    by (auto simp add: from_str_def)
qed

lemma from_str_Inl: "from_str s = Inl e \<Longrightarrow> e = ValueError"
  by (auto simp add: from_str_def split: option.splits list.splits)

section \<open>Versions: parsing and formatting\<close>

text \<open>
  Claim C9. For every triple of non-negative integers, parsing the formatted version gives
  the triple back: \<open>from_str (str v) = v\<close>.
\<close>

theorem from_str_FactorioVersion_str:
  "0 \<le> a \<Longrightarrow> 0 \<le> b \<Longrightarrow> 0 \<le> c \<Longrightarrow>
   from_str (FactorioVersion_str \<lparr>major = a, minor = b, patch = c\<rparr>) =
     Inr \<lparr>major = a, minor = b, patch = c\<rparr>"
  by (simp add: from_str_def FactorioVersion_str_def split_sep_append split_sep_no_sep
      dot_notin_str_int py_int_str_int)

theorem from_str_FactorioVersion_str_witness:
  "(0::int) \<le> 2 \<and> (0::int) \<le> 0 \<and> (0::int) \<le> 10 \<and>
   FactorioVersion_str \<lparr>major = 2, minor = 0, patch = 10\<rparr> = ''2.0.10'' \<and>
   from_str (FactorioVersion_str \<lparr>major = 2, minor = 0, patch = 10\<rparr>) =
     Inr \<lparr>major = 2, minor = 0, patch = 10\<rparr>"
proof -
  have fmt: "FactorioVersion_str \<lparr>major = 2, minor = 0, patch = 10\<rparr> = ''2.0.10''"
    by (simp add: FactorioVersion_str_def str_int_def nat_digits.simps digit_char_table)
  show ?thesis
    using from_str_FactorioVersion_str [of 2 0 10] fmt by simp
qed

text \<open>
  Claim C6, as the code has it. \<open>from_str\<close> succeeds exactly when the string splits on
  the dot into three fields that \<open>int\<close> accepts, and the components are the values of the
  fields; every failure is a \<open>ValueError\<close>; the components are non-negative when the string
  has no minus sign. \<open>int\<close> accepts a sign, so a field such as \<open>-2\<close> gives a negative
  component.
\<close>

theorem from_str_parse:
  "(from_str s = Inr v \<longleftrightarrow>
      (\<exists>a b c. split_sep (CHR ''.'') s = [a, b, c] \<and> py_int a = Some (major v) \<and>
         py_int b = Some (minor v) \<and> py_int c = Some (patch v))) \<and>
   (from_str s = Inl e \<longrightarrow> e = ValueError) \<and>
   (CHR ''-'' \<notin> set s \<longrightarrow> from_str s = Inr v \<longrightarrow> 0 \<le> major v \<and> 0 \<le> minor v \<and> 0 \<le> patch v)"
proof (intro conjI impI)
  show "from_str s = Inr v \<longleftrightarrow>
      (\<exists>a b c. split_sep (CHR ''.'') s = [a, b, c] \<and> py_int a = Some (major v) \<and>
         py_int b = Some (minor v) \<and> py_int c = Some (patch v))"
    by (rule from_str_Inr_iff)
next
  assume "from_str s = Inl e"
  then show "e = ValueError"
    by (rule from_str_Inl)
next
  assume nm: "CHR ''-'' \<notin> set s" and ok: "from_str s = Inr v"
  from ok obtain a b c where sp: "split_sep (CHR ''.'') s = [a, b, c]"
    and pa: "py_int a = Some (major v)" and pb: "py_int b = Some (minor v)"
    and pc: "py_int c = Some (patch v)"
    unfolding from_str_Inr_iff by blast
  have "set a \<subseteq> set s" "set b \<subseteq> set s" "set c \<subseteq> set s"
    using set_split_sep [of _ "CHR ''.''" s] sp by simp_all
  with nm have "CHR ''-'' \<notin> set a" "CHR ''-'' \<notin> set b" "CHR ''-'' \<notin> set c"
    by auto
  with pa pb pc show "0 \<le> major v" "0 \<le> minor v" "0 \<le> patch v"
    by (auto dest: py_int_nonneg)
qed

theorem from_str_parse_witness:
  "from_str ''2.0.10'' = Inr \<lparr>major = 2, minor = 0, patch = 10\<rparr> \<and>
   CHR ''-'' \<notin> set ''2.0.10'' \<and>
   0 \<le> major \<lparr>major = 2, minor = 0, patch = 10\<rparr> \<and>
   from_str ''2.0'' = Inl ValueError"
proof -
  have ok: "from_str ''2.0.10'' = Inr \<lparr>major = 2, minor = 0, patch = 10\<rparr>"
    by (simp add: from_str_def py_int_def strip_by_def int_space_def int_unsigned_def
        isdigit_def digit_value_def)
  have nm: "CHR ''-'' \<notin> set ''2.0.10''"
    by simp
  have bad: "from_str ''2.0'' = Inl ValueError"
    by (simp add: from_str_def py_int_def strip_by_def int_space_def int_unsigned_def
        isdigit_def digit_value_def)
  from from_str_parse [of "''2.0.10''" "\<lparr>major = 2, minor = 0, patch = 10\<rparr>" ValueError] ok nm bad
  show ?thesis
    by blast
qed

text \<open>
  Claim C6 as stated fails: the version parsed from \<open>1.-2.3\<close> has a negative component.
\<close>

theorem from_str_negative_component:
  "from_str ''1.-2.3'' = Inr \<lparr>major = 1, minor = - 2, patch = 3\<rparr> \<and>
   minor \<lparr>major = 1, minor = - 2, patch = 3\<rparr> < 0"
  by (simp add: from_str_def py_int_def strip_by_def int_space_def int_unsigned_def
      isdigit_def digit_value_def)

section \<open>Facts about files and logs\<close>

lemma log_emit [simp]: "log (emit e s) = log s @ [e]"
  and files_emit [simp]: "files (emit e s) = files s"
  by (simp_all add: emit_def)

lemma log_unlink [simp]: "log (unlink p s) = log s @ [Unlink p]"
  and files_unlink [simp]: "files (unlink p s) = (files s)(p := None)"
  by (simp_all add: unlink_def)

lemma log_open_wb [simp]: "log (open_wb p s) = log s @ [OpenWb p]"
  and files_open_wb [simp]: "files (open_wb p s) = (files s)(p \<mapsto> [])"
  by (simp_all add: open_wb_def)

lemma log_write_text [simp]: "log (write_text p text s) = log s @ [WriteText p text]"
  and files_write_text [simp]: "files (write_text p text s) = (files s)(p \<mapsto> text)"
  by (simp_all add: write_text_def)

lemma log_stream [simp]:
  "log (stream df d body s) = log s @ map (\<lambda>chunk. Advance d (length chunk)) body"
  by (induction body arbitrary: s) (simp_all add: write_chunk_def)

lemma files_stream_other: "p \<noteq> df \<Longrightarrow> files (stream df d body s) p = files s p"
  by (induction body arbitrary: s) (simp_all add: write_chunk_def)

lemma files_stream_self:
  "files s df = Some old \<Longrightarrow> files (stream df d body s) df = Some (old @ concat body)"
  by (induction body arbitrary: s old) (simp_all add: write_chunk_def)

lemma gets_append [simp]: "gets (xs @ ys) = gets xs @ gets ys"
  by (simp add: gets_def)

lemma gets_simps [simp]:
  "gets [] = []" "gets (e # es) = request_url e @ gets es"
  by (simp_all add: gets_def)

lemma gets_advances [simp]: "gets (map (\<lambda>chunk. Advance d (length chunk)) body) = []"
  by (induction body) simp_all

lemma advanced_append [simp]: "advanced (xs @ ys) = advanced xs + advanced ys"
  by (simp add: advanced_def)

lemma advanced_simps [simp]:
  "advanced [] = 0" "advanced (e # es) = advance_of e + advanced es"
  by (simp_all add: advanced_def)

lemma advanced_advances [simp]:
  "advanced (map (\<lambda>chunk. Advance d (length chunk)) body) = length (concat body)"
  by (induction body) simp_all

lemma events_since_append: "log s' = log s @ evs \<Longrightarrow> events_since s s' = evs"
  by (simp add: events_since_def)

lemma save_file_neq_download_file: "save_file_of sd d \<noteq> download_file_of sd dd d"
  by (simp add: save_file_of_def download_file_of_def path_div_def)

lemma version_file_neq_save_file: "path_div sd DOWNLOADED_VERSION_FILE \<noteq> save_file_of sd' d"
  by (cases d) (simp_all add: save_file_of_def path_div_def DOWNLOADED_VERSION_FILE_def)

lemma version_file_neq_download_file:
  "path_div sd DOWNLOADED_VERSION_FILE \<noteq> download_file_of sd' dd d"
  by (cases d) (simp_all add: save_file_of_def download_file_of_def path_div_def DOWNLOADED_VERSION_FILE_def)

lemma rename_streamed:
  "sf \<noteq> df \<Longrightarrow>
   rename df sf (unlink sf (stream df d body (open_wb df s))) =
     Inr (emit (Rename df sf)
           ((unlink sf (stream df d body (open_wb df s)))
              \<lparr>files := ((files (unlink sf (stream df d body (open_wb df s))))(df := None))
                          (sf \<mapsto> concat body)\<rparr>))"
  using files_stream_self [of "open_wb df s" df "[]" d body]
  by (simp add: rename_def)

lemma download_files_other:
  assumes "p \<noteq> save_file_of sd d" and "p \<noteq> download_file_of sd dd d"
  shows "files (snd (download w rv b sd dd u t d s)) p = files s p"
  using assms save_file_neq_download_file [of sd d dd]
  by (simp add: download_def Let_def rename_streamed files_stream_other
      split: reply.splits option.splits)

lemma download_gets:
  "gets (log (snd (download w rv b sd dd u t d s))) =
     gets (log s) @ [DOWNLOAD_URL_TEMPLATE (requested_str rv) (build_value b) (distro_value d)]"
  using save_file_neq_download_file [of sd d dd]
  by (simp add: download_def Let_def rename_streamed split: reply.splits option.splits)

lemma download_log:
  "\<exists>evs. log (snd (download w rv b sd dd u t d s)) = log s @ evs \<and>
     (\<forall>e \<in> set evs. \<forall>p. touches p e \<longrightarrow> p = save_file_of sd d \<or> p = download_file_of sd dd d)"
  using save_file_neq_download_file [of sd d dd]
  by (auto simp add: download_def Let_def rename_streamed split: reply.splits option.splits)

lemma download_failed_status:
  assumes "server w (DOWNLOAD_URL_TEMPLATE (requested_str rv) (build_value b) (distro_value d)) =
             Response False h body dies"
  shows "download w rv b sd dd u t d s =
           (Inl ClientResponseError,
            emit (HttpGet (DOWNLOAD_URL_TEMPLATE (requested_str rv) (build_value b) (distro_value d))
                    [(''username'', u), (''token'', t)])
              (emit (AddTask d (''Downloading '' @ requested_str rv @ ''/'' @ build_value b @ ''/''
                                  @ distro_value d))
                 (unlink (download_file_of sd dd d) s)))"
  using assms by (simp add: download_def Let_def)

lemma download_succeeded:
  assumes "fst (download w rv b sd dd u t d s) = Inr ()"
  shows "\<exists>h body.
           server w (DOWNLOAD_URL_TEMPLATE (requested_str rv) (build_value b) (distro_value d)) =
             Response True h body False \<and>
           files (snd (download w rv b sd dd u t d s)) (save_file_of sd d) = Some (concat body) \<and>
           files (snd (download w rv b sd dd u t d s)) (download_file_of sd dd d) = None \<and>
           advanced (events_since s (snd (download w rv b sd dd u t d s))) = length (concat body)"
  using assms save_file_neq_download_file [of sd d dd]
  by (auto simp add: download_def Let_def rename_streamed events_since_def
      split: reply.splits option.splits if_splits)

section \<open>Facts about the task group and the run\<close>

lemma task_group_files_other:
  assumes "\<And>d. p \<noteq> save_file_of sd d \<and> p \<noteq> download_file_of sd dd d"
  shows "files (snd (task_group (download w rv b sd dd u t) ds s)) p = files s p"
proof (induction ds arbitrary: s)
  case Nil
  show ?case by simp
next
  case (Cons d ds)
  have "files (snd (download w rv b sd dd u t d s)) p = files s p"
    using assms by (simp add: download_files_other)
  with Cons.IH [of "snd (download w rv b sd dd u t d s)"] show ?case
    by (simp add: case_prod_beta)
qed

lemma task_group_gets:
  "gets (log (snd (task_group (download w rv b sd dd u t) ds s))) =
     gets (log s) @
       map (\<lambda>d. DOWNLOAD_URL_TEMPLATE (requested_str rv) (build_value b) (distro_value d)) ds"
proof (induction ds arbitrary: s)
  case Nil
  show ?case by simp
next
  case (Cons d ds)
  from Cons.IH [of "snd (download w rv b sd dd u t d s)"] show ?case
    by (simp add: download_gets case_prod_beta)
qed

lemma task_group_log:
  "\<exists>evs. log (snd (task_group (download w rv b sd dd u t) ds s)) = log s @ evs \<and>
     (\<forall>e \<in> set evs. \<forall>p. touches p e \<longrightarrow>
        (\<exists>d. p = save_file_of sd d \<or> p = download_file_of sd dd d))"
proof (induction ds arbitrary: s)
  case Nil
  show ?case by simp
next
  case (Cons d ds)
  let ?s1 = "snd (download w rv b sd dd u t d s)"
  obtain evs1 where l1: "log ?s1 = log s @ evs1"
    and t1: "\<forall>e \<in> set evs1. \<forall>p. touches p e \<longrightarrow>
               p = save_file_of sd d \<or> p = download_file_of sd dd d"
    using download_log [of w rv b sd dd u t d s] by blast
  obtain evs2 where l2: "log (snd (task_group (download w rv b sd dd u t) ds ?s1)) = log ?s1 @ evs2"
    and t2: "\<forall>e \<in> set evs2. \<forall>p. touches p e \<longrightarrow>
               (\<exists>d. p = save_file_of sd d \<or> p = download_file_of sd dd d)"
    using Cons.IH [of ?s1] by blast
  have "log (snd (task_group (download w rv b sd dd u t) (d # ds) s)) = log s @ (evs1 @ evs2)"
    using l1 l2 by (simp add: case_prod_beta)
  moreover have "\<forall>e \<in> set (evs1 @ evs2). \<forall>p. touches p e \<longrightarrow>
        (\<exists>d. p = save_file_of sd d \<or> p = download_file_of sd dd d)"
    using t1 t2 by auto
  ultimately show ?case
    by blast
qed

lemma run_tasks_marker:
  "files (snd (run_tasks w a rv s)) (version_file_of a) = files s (version_file_of a)"
  unfolding run_tasks_def version_file_of_def
  by (rule task_group_files_other)
    (simp add: version_file_neq_save_file version_file_neq_download_file)

lemma run_tasks_gets:
  "gets (log (snd (run_tasks w a rv s))) =
     gets (log s) @
       map (\<lambda>d. DOWNLOAD_URL_TEMPLATE (requested_str rv) (build_value (build a)) (distro_value d))
         (distro a)"
  unfolding run_tasks_def by (rule task_group_gets)

lemma run_tasks_log:
  "log (snd (run_tasks w a rv s)) = log s @ events_since s (snd (run_tasks w a rv s)) \<and>
   (\<forall>e \<in> set (events_since s (snd (run_tasks w a rv s))). \<not> touches (version_file_of a) e)"
proof -
  obtain evs where l: "log (snd (run_tasks w a rv s)) = log s @ evs"
    and t: "\<forall>e \<in> set evs. \<forall>p. touches p e \<longrightarrow>
        (\<exists>d. p = save_file_of (outdir a) d \<or> p = download_file_of (outdir a) (download_dir_of a) d)"
    unfolding run_tasks_def
    using task_group_log [of w rv "build a" "outdir a" "download_dir_of a" "username a" "token a" "distro a" s]
    by blast
  have "\<forall>e \<in> set evs. \<not> touches (version_file_of a) e"
    using t version_file_neq_save_file [of "outdir a" "outdir a"]
      version_file_neq_download_file [of "outdir a" "outdir a" "download_dir_of a"]
    unfolding version_file_of_def by blast
  with l show ?thesis
    by (simp add: events_since_append [OF l])
qed

lemma fan_out_failed:
  "fst (run_tasks w a rv (unlink (version_file_of a) s)) \<noteq> [] \<Longrightarrow>
   fan_out w a rv dv s =
     (Raised (ExceptionGroup (fst (run_tasks w a rv (unlink (version_file_of a) s)))),
      snd (run_tasks w a rv (unlink (version_file_of a) s)))"
  by (simp add: fan_out_def case_prod_beta)

lemma fan_out_succeeded:
  "fst (run_tasks w a rv (unlink (version_file_of a) s)) = [] \<Longrightarrow>
   fan_out w a rv dv s =
     (Returned,
      write_text (version_file_of a) (marker_text rv dv)
        (snd (run_tasks w a rv (unlink (version_file_of a) s))))"
  by (simp add: fan_out_def case_prod_beta)

lemma main_proceeds:
  assumes "parse_requested (version a) = Inr rv"
    and "get_downloaded_version (version_file_of a) s = Inr dv"
    and "reconcile w (build a) rv dv s = (None, s1)"
  shows "main w a s = fan_out w a rv dv s1"
  using assms by (simp add: main_def)


lemma reconcile_proceeds_log:
  assumes "reconcile w b rv dv s = (None, s1)"
  shows "files s1 = files s \<and>
         (events_since s s1 = [] \<or> events_since s s1 = [HttpGet LATEST_RELEASE_URL []])"
  using assms
  by (auto simp add: reconcile_def get_latest_version_def Let_def events_since_def
      split: option.splits requested.splits sum.splits prod.splits if_splits)

lemma download_result: "fst (download w rv b sd dd u t d s) = task_result w rv b d"
  using save_file_neq_download_file [of sd d dd]
  by (auto simp add: download_def task_result_def Let_def rename_streamed
      split: reply.splits option.splits)

lemma task_group_errors:
  "fst (task_group (download w rv b sd dd u t) ds s) = failures (map (task_result w rv b) ds)"
proof (induction ds arbitrary: s)
  case Nil
  show ?case by simp
next
  case (Cons d ds)
  have "fst (download w rv b sd dd u t d s) = task_result w rv b d"
    by (rule download_result)
  with Cons.IH [of "snd (download w rv b sd dd u t d s)"] show ?case
    by (cases "task_result w rv b d") (simp_all add: case_prod_beta)
qed

lemma run_tasks_errors:
  "fst (run_tasks w a rv s) = failures (map (task_result w rv (build a)) (distro a))"
  unfolding run_tasks_def by (rule task_group_errors)

section \<open>Evaluating the scenarios\<close>

lemmas py_eval = from_str_def py_int_def strip_by_def strip_def int_space_def isspace_def
  int_unsigned_def isdigit_def digit_value_def FactorioVersion_str_def str_int_def
  nat_digits.simps digit_char_table

lemmas ex_eval = ex_args_def ex_state_def ex_world_def ex_world_osx_refused_def good_reply_def
  bad_reply_def version_file_of_def download_dir_of_def path_div_def DOWNLOADED_VERSION_FILE_def
  LATEST_RELEASE_URL_def DOWNLOAD_URL_TEMPLATE_def

lemmas run_eval = parse_requested_def get_downloaded_version_def reconcile_def
  get_latest_version_def version_less_def save_file_of_def emit_def
  download_file_of_def marker_text_def Let_def

lemma ex_marker_110:
  "get_downloaded_version (version_file_of (ex_args v ds)) (ex_state (Some (''1.1.0'' @ [CHR 0x0A]))) =
     Inr (Some \<lparr>major = 1, minor = 1, patch = 0\<rparr>)"
  by (simp add: ex_eval run_eval py_eval)

lemma ex_reconcile_120:
  "reconcile (ex_world_osx_refused ''1.2.0'') EXPANSION Latest (Some \<lparr>major = 1, minor = 1, patch = 0\<rparr>) s =
     (None, emit (HttpGet LATEST_RELEASE_URL []) s)"
  by (simp add: ex_eval run_eval py_eval)

section \<open>The download task\<close>

text \<open>
  Claim C5. A download task whose response has an error status fails, and leaves the final
  file as it was: no file operation of the task is on the final path. A task that succeeds
  leaves the final file in place and no temporary file, and the size of the final file is
  the sum of the amounts by which it advanced the progress.
\<close>

theorem download_task:
  "(server w (DOWNLOAD_URL_TEMPLATE (requested_str rv) (build_value b) (distro_value d)) =
      Response False h body dies \<longrightarrow>
      fst (download w rv b sd dd u t d s) = Inl ClientResponseError \<and>
      files (snd (download w rv b sd dd u t d s)) (save_file_of sd d) = files s (save_file_of sd d) \<and>
      (\<forall>e \<in> set (events_since s (snd (download w rv b sd dd u t d s))).
         \<not> touches (save_file_of sd d) e)) \<and>
   (fst (download w rv b sd dd u t d s) = Inr () \<longrightarrow>
      (\<exists>content.
         files (snd (download w rv b sd dd u t d s)) (save_file_of sd d) = Some content \<and>
         files (snd (download w rv b sd dd u t d s)) (download_file_of sd dd d) = None \<and>
         length content = advanced (events_since s (snd (download w rv b sd dd u t d s)))))"
proof (intro conjI impI)
  assume bad: "server w (DOWNLOAD_URL_TEMPLATE (requested_str rv) (build_value b) (distro_value d)) =
      Response False h body dies"
  note eq = download_failed_status [OF bad, of sd dd u t s]
  show "fst (download w rv b sd dd u t d s) = Inl ClientResponseError"
    by (simp add: eq)
  show "files (snd (download w rv b sd dd u t d s)) (save_file_of sd d) = files s (save_file_of sd d)"
    using save_file_neq_download_file [of sd d dd] by (simp add: eq)
  show "\<forall>e \<in> set (events_since s (snd (download w rv b sd dd u t d s))).
         \<not> touches (save_file_of sd d) e"
    using save_file_neq_download_file [of sd d dd] by (simp add: eq events_since_def)
next
  assume "fst (download w rv b sd dd u t d s) = Inr ()"
  from download_succeeded [OF this]
  show "\<exists>content.
         files (snd (download w rv b sd dd u t d s)) (save_file_of sd d) = Some content \<and>
         files (snd (download w rv b sd dd u t d s)) (download_file_of sd dd d) = None \<and>
         length content = advanced (events_since s (snd (download w rv b sd dd u t d s)))"
    by auto
qed

theorem download_task_witness:
  "server (ex_world_osx_refused ''1.2.0'')
     (DOWNLOAD_URL_TEMPLATE (requested_str Latest) (build_value EXPANSION) (distro_value OSX)) =
     Response False None [] False \<and>
   fst (download (ex_world_osx_refused ''1.2.0'') Latest EXPANSION [''out''] [''tmp''] ''user''
          ''secret'' OSX (ex_state None)) = Inl ClientResponseError \<and>
   fst (download (ex_world_osx_refused ''1.2.0'') Latest EXPANSION [''out''] [''tmp''] ''user''
          ''secret'' WIN64 (ex_state None)) = Inr () \<and>
   files (snd (download (ex_world_osx_refused ''1.2.0'') Latest EXPANSION [''out''] [''tmp'']
                 ''user'' ''secret'' WIN64 (ex_state None))) [''tmp'', ''win64.exe.tmp''] = None \<and>
   (\<exists>content.
      files (snd (download (ex_world_osx_refused ''1.2.0'') Latest EXPANSION [''out''] [''tmp'']
                    ''user'' ''secret'' WIN64 (ex_state None))) [''out'', ''win64.exe''] = Some content \<and>
      length content =
        advanced (events_since (ex_state None)
          (snd (download (ex_world_osx_refused ''1.2.0'') Latest EXPANSION [''out''] [''tmp'']
                  ''user'' ''secret'' WIN64 (ex_state None)))))"
proof -
  let ?w = "ex_world_osx_refused ''1.2.0''"
  have bad: "server ?w (DOWNLOAD_URL_TEMPLATE (requested_str Latest) (build_value EXPANSION)
                          (distro_value OSX)) = Response False None [] False"
    by (simp add: ex_eval)
  have ok: "fst (download ?w Latest EXPANSION [''out''] [''tmp''] ''user'' ''secret'' WIN64
                   (ex_state None)) = Inr ()"
    by (simp add: download_result task_result_def ex_eval py_eval)
  have sf: "save_file_of [''out''] WIN64 = [''out'', ''win64.exe'']"
    and df: "download_file_of [''out''] [''tmp''] WIN64 = [''tmp'', ''win64.exe.tmp'']"
    by (simp_all add: save_file_of_def download_file_of_def path_div_def)
  from download_task [of ?w Latest EXPANSION OSX None "[]" False "[''out'']" "[''tmp'']"
      "''user''" "''secret''" "ex_state None"] bad
  have 1: "fst (download ?w Latest EXPANSION [''out''] [''tmp''] ''user'' ''secret'' OSX
                  (ex_state None)) = Inl ClientResponseError"
    by blast
  from download_task [of ?w Latest EXPANSION WIN64 None "[]" False "[''out'']" "[''tmp'']"
      "''user''" "''secret''" "ex_state None"] ok
  have 2: "\<exists>content.
      files (snd (download ?w Latest EXPANSION [''out''] [''tmp''] ''user'' ''secret'' WIN64
                    (ex_state None))) (save_file_of [''out''] WIN64) = Some content \<and>
      files (snd (download ?w Latest EXPANSION [''out''] [''tmp''] ''user'' ''secret'' WIN64
                    (ex_state None))) (download_file_of [''out''] [''tmp''] WIN64) = None \<and>
      length content =
        advanced (events_since (ex_state None)
          (snd (download ?w Latest EXPANSION [''out''] [''tmp''] ''user'' ''secret'' WIN64
                  (ex_state None))))"
    by blast
  from bad 1 ok 2 show ?thesis
    unfolding sf df by blast
qed

section \<open>The version file around the downloads\<close>

text \<open>
  Claim C3. When the run goes on to download, nothing but the query for the latest release
  precedes the removal of the version file; the tasks that follow perform no file operation
  on it; it is written once, after the tasks, and only when none of them failed; when a task
  failed the run raises the group of the failures and the version file does not exist.
\<close>

theorem marker_all_or_nothing:
  fixes w :: world and a :: args and s s1 :: state
  defines "vf \<equiv> version_file_of a"
  assumes "parse_requested (version a) = Inr rv"
    and "get_downloaded_version vf s = Inr dv"
    and "reconcile w (build a) rv dv s = (None, s1)"
  defines "run \<equiv> run_tasks w a rv (unlink vf s1)"
  shows "(events_since s s1 = [] \<or> events_since s s1 = [HttpGet LATEST_RELEASE_URL []]) \<and>
         log (snd run) = log s1 @ Unlink vf # events_since (unlink vf s1) (snd run) \<and>
         (\<forall>e \<in> set (events_since (unlink vf s1) (snd run)). \<not> touches vf e) \<and>
         (fst run = [] \<longrightarrow>
            main w a s = (Returned, write_text vf (marker_text rv dv) (snd run))) \<and>
         (fst run \<noteq> [] \<longrightarrow>
            main w a s = (Raised (ExceptionGroup (fst run)), snd run) \<and>
            files (snd run) vf = None)"
proof -
  have m: "main w a s = fan_out w a rv dv s1"
    using assms(2,3,4) unfolding vf_def by (rule main_proceeds)
  have pre: "events_since s s1 = [] \<or> events_since s s1 = [HttpGet LATEST_RELEASE_URL []]"
    using reconcile_proceeds_log [OF assms(4)] by simp
  have l: "log (snd run) = log (unlink vf s1) @ events_since (unlink vf s1) (snd run)"
    and nt: "\<forall>e \<in> set (events_since (unlink vf s1) (snd run)). \<not> touches vf e"
    using run_tasks_log [of w a rv "unlink vf s1"] unfolding run_def vf_def by blast+
  have absent: "files (snd run) vf = None"
    using run_tasks_marker [of w a rv "unlink vf s1"] unfolding run_def vf_def by simp
  have ok: "fst run = [] \<longrightarrow> main w a s = (Returned, write_text vf (marker_text rv dv) (snd run))"
    unfolding m run_def vf_def by (simp add: fan_out_succeeded)
  have ko: "fst run \<noteq> [] \<longrightarrow> main w a s = (Raised (ExceptionGroup (fst run)), snd run)"
    unfolding m run_def vf_def by (simp add: fan_out_failed)
  from pre l nt absent ok ko show ?thesis
    by simp
qed

theorem marker_all_or_nothing_witness:
  "parse_requested (version (ex_args ''latest'' [WIN64, OSX])) = Inr Latest \<and>
   get_downloaded_version (version_file_of (ex_args ''latest'' [WIN64, OSX]))
     (ex_state (Some (''1.1.0'' @ [CHR 0x0A]))) = Inr (Some \<lparr>major = 1, minor = 1, patch = 0\<rparr>) \<and>
   fst (main (ex_world_osx_refused ''1.2.0'') (ex_args ''latest'' [WIN64, OSX])
          (ex_state (Some (''1.1.0'' @ [CHR 0x0A])))) = Raised (ExceptionGroup [ClientResponseError]) \<and>
   files (snd (main (ex_world_osx_refused ''1.2.0'') (ex_args ''latest'' [WIN64, OSX])
                 (ex_state (Some (''1.1.0'' @ [CHR 0x0A])))))
     [''out'', ''version.txt''] = None"
proof -
  let ?a = "ex_args ''latest'' [WIN64, OSX]"
  let ?w = "ex_world_osx_refused ''1.2.0''"
  let ?s = "ex_state (Some (''1.1.0'' @ [CHR 0x0A]))"
  let ?s1 = "emit (HttpGet LATEST_RELEASE_URL []) ?s"
  have p: "parse_requested (version ?a) = Inr Latest"
    by (simp add: parse_requested_def ex_args_def)
  have g: "get_downloaded_version (version_file_of ?a) ?s = Inr (Some \<lparr>major = 1, minor = 1, patch = 0\<rparr>)"
    by (rule ex_marker_110)
  have r: "reconcile ?w (build ?a) Latest (Some \<lparr>major = 1, minor = 1, patch = 0\<rparr>) ?s = (None, ?s1)"
    using ex_reconcile_120 [of ?s] by (simp add: ex_args_def)
  have e: "fst (run_tasks ?w ?a Latest (unlink (version_file_of ?a) ?s1)) = [ClientResponseError]"
    by (simp add: run_tasks_errors task_result_def ex_eval py_eval)
  have vf: "version_file_of ?a = [''out'', ''version.txt'']"
    by (simp add: ex_eval)
  from marker_all_or_nothing [OF p g r] e p g vf show ?thesis
    by simp
qed

section \<open>Further facts about the run\<close>

lemma fan_out_marker:
  "fst (run_tasks w a rv (unlink (version_file_of a) s)) = [] \<Longrightarrow>
   fst (fan_out w a rv dv s) = Returned \<and>
   files (snd (fan_out w a rv dv s)) (version_file_of a) = Some (marker_text rv dv)"
  by (simp add: fan_out_succeeded)

lemma fan_out_gets:
  "gets (log (snd (fan_out w a rv dv s))) =
     gets (log s) @
       map (\<lambda>d. DOWNLOAD_URL_TEMPLATE (requested_str rv) (build_value (build a)) (distro_value d))
         (distro a)"
proof (cases "fst (run_tasks w a rv (unlink (version_file_of a) s)) = []")
  case True
  then show ?thesis
    by (simp add: fan_out_succeeded run_tasks_gets)
next
  case False
  then show ?thesis
    by (simp add: fan_out_failed run_tasks_gets)
qed

lemma parse_requested_latest: "parse_requested ''latest'' = Inr Latest"
  by (simp add: parse_requested_def)


lemma reconcile_latest_proceeds:
  assumes "reconcile w b Latest dv s = (None, s1)"
  shows "s1 = (case dv of None \<Rightarrow> s | Some v \<Rightarrow> emit (HttpGet LATEST_RELEASE_URL []) s)"
  using assms
  by (auto simp add: reconcile_def get_latest_version_def Let_def
      split: option.splits sum.splits prod.splits if_splits)





section \<open>What the version file records\<close>

text \<open>
  Claim C1, evaluated on the code. The version file holds \<open>1.1.0\<close>, the request is
  \<open>latest\<close>, the latest release is \<open>1.2.0\<close>, and both downloads succeed: the run returns
  and the version file it writes holds \<open>1.1.0\<close> again, the version read at the start, not
  the version \<open>1.2.0\<close> that was downloaded.
\<close>

theorem main_marker_after_upgrade:
  "fst (main (ex_world ''1.2.0'') (ex_args ''latest'' [WIN64, OSX])
          (ex_state (Some (''1.1.0'' @ [CHR 0x0A])))) = Returned \<and>
   gets (log (snd (main (ex_world ''1.2.0'') (ex_args ''latest'' [WIN64, OSX])
                     (ex_state (Some (''1.1.0'' @ [CHR 0x0A])))))) =
     [''https://factorio.com/api/latest-releases'',
      ''https://www.factorio.com/get-download/latest/expansion/win64'',
      ''https://www.factorio.com/get-download/latest/expansion/osx''] \<and>
   files (snd (main (ex_world ''1.2.0'') (ex_args ''latest'' [WIN64, OSX])
                 (ex_state (Some (''1.1.0'' @ [CHR 0x0A])))))
     [''out'', ''version.txt''] = Some (''1.1.0'' @ [CHR 0x0A])"
proof -
  let ?a = "ex_args ''latest'' [WIN64, OSX]"
  let ?w = "ex_world ''1.2.0''"
  let ?s = "ex_state (Some (''1.1.0'' @ [CHR 0x0A]))"
  let ?s1 = "emit (HttpGet LATEST_RELEASE_URL []) ?s"
  let ?dv = "Some \<lparr>major = 1, minor = 1, patch = 0\<rparr>"
  have p: "parse_requested (version ?a) = Inr Latest"
    by (simp add: parse_requested_def ex_args_def)
  have g: "get_downloaded_version (version_file_of ?a) ?s = Inr ?dv"
    by (rule ex_marker_110)
  have r: "reconcile ?w (build ?a) Latest ?dv ?s = (None, ?s1)"
    by (simp add: ex_eval run_eval py_eval)
  have m: "main ?w ?a ?s = fan_out ?w ?a Latest ?dv ?s1"
    using p g r by (rule main_proceeds)
  have e: "fst (run_tasks ?w ?a Latest (unlink (version_file_of ?a) ?s1)) = []"
    by (simp add: run_tasks_errors task_result_def ex_eval py_eval)
  have vf: "version_file_of ?a = [''out'', ''version.txt'']"
    by (simp add: ex_eval)
  have t: "marker_text Latest ?dv = ''1.1.0'' @ [CHR 0x0A]"
    by (simp add: marker_text_def py_eval)
  have u: "gets (log (snd (fan_out ?w ?a Latest ?dv ?s1))) =
     [''https://factorio.com/api/latest-releases'',
      ''https://www.factorio.com/get-download/latest/expansion/win64'',
      ''https://www.factorio.com/get-download/latest/expansion/osx'']"
    unfolding fan_out_gets by (simp add: ex_eval)
  from fan_out_marker [OF e, of ?dv] m vf t u show ?thesis
    by simp
qed

section \<open>The version in the download URL\<close>

text \<open>
  Claim C2, as the code has it. In a run that is asked for \<open>latest\<close> and goes on to
  download, the latest release is queried, before the downloads, exactly when a version
  file was read; the requests that follow are the download URLs of the requested
  distributions in order, each with the token \<open>latest\<close> in the place of the version.
\<close>

theorem latest_stays_literal:
  assumes "version a = ''latest''"
    and "get_downloaded_version (version_file_of a) s = Inr dv"
    and "reconcile w (build a) Latest dv s = (None, s1)"
  shows "gets (log (snd (main w a s))) =
           gets (log s) @ (case dv of None \<Rightarrow> [] | Some v \<Rightarrow> [LATEST_RELEASE_URL]) @
             map (\<lambda>d. DOWNLOAD_URL_TEMPLATE ''latest'' (build_value (build a)) (distro_value d))
               (distro a)"
proof -
  have p: "parse_requested (version a) = Inr Latest"
    using assms(1) by (simp add: parse_requested_latest)
  have m: "main w a s = fan_out w a Latest dv s1"
    using p assms(2,3) by (rule main_proceeds)
  have "gets (log s1) = gets (log s) @ (case dv of None \<Rightarrow> [] | Some v \<Rightarrow> [LATEST_RELEASE_URL])"
    using reconcile_latest_proceeds [OF assms(3)] by (simp split: option.splits)
  then show ?thesis
    by (simp add: m fan_out_gets)
qed

theorem latest_stays_literal_witness:
  "version (ex_args ''latest'' [WIN64, OSX]) = ''latest'' \<and>
   get_downloaded_version (version_file_of (ex_args ''latest'' [WIN64, OSX]))
     (ex_state (Some (''1.1.0'' @ [CHR 0x0A]))) = Inr (Some \<lparr>major = 1, minor = 1, patch = 0\<rparr>) \<and>
   gets (log (snd (main (ex_world_osx_refused ''1.2.0'') (ex_args ''latest'' [WIN64, OSX])
                     (ex_state (Some (''1.1.0'' @ [CHR 0x0A])))))) =
     [''https://factorio.com/api/latest-releases'',
      ''https://www.factorio.com/get-download/latest/expansion/win64'',
      ''https://www.factorio.com/get-download/latest/expansion/osx'']"
proof -
  let ?a = "ex_args ''latest'' [WIN64, OSX]"
  let ?w = "ex_world_osx_refused ''1.2.0''"
  let ?s = "ex_state (Some (''1.1.0'' @ [CHR 0x0A]))"
  let ?dv = "Some \<lparr>major = 1, minor = 1, patch = 0\<rparr>"
  have v: "version ?a = ''latest''"
    by (simp add: ex_args_def)
  have g: "get_downloaded_version (version_file_of ?a) ?s = Inr ?dv"
    by (rule ex_marker_110)
  have r: "reconcile ?w (build ?a) Latest ?dv ?s = (None, emit (HttpGet LATEST_RELEASE_URL []) ?s)"
    using ex_reconcile_120 [of ?s] by (simp add: ex_args_def)
  have l: "gets (log ?s) = []"
    by (simp add: ex_state_def)
  have u: "map (\<lambda>d. DOWNLOAD_URL_TEMPLATE ''latest'' (build_value (build ?a)) (distro_value d))
             (distro ?a) =
           [''https://www.factorio.com/get-download/latest/expansion/win64'',
            ''https://www.factorio.com/get-download/latest/expansion/osx'']"
    by (simp add: ex_args_def DOWNLOAD_URL_TEMPLATE_def)
  have q: "LATEST_RELEASE_URL = ''https://factorio.com/api/latest-releases''"
    by (simp add: LATEST_RELEASE_URL_def)
  from latest_stays_literal [OF v g r] v g show ?thesis
    unfolding l u q by simp
qed

text \<open>
  Claim C2 as stated fails: without a version file the run downloads without querying the
  latest release at all, and the URL it requests names \<open>latest\<close>, not the version
  \<open>1.2.0\<close> the server would have resolved it to.
\<close>

theorem latest_not_resolved:
  "fst (main (ex_world ''1.2.0'') (ex_args ''latest'' [WIN64]) (ex_state None)) = Returned \<and>
   gets (log (snd (main (ex_world ''1.2.0'') (ex_args ''latest'' [WIN64]) (ex_state None)))) =
     [''https://www.factorio.com/get-download/latest/expansion/win64''] \<and>
   LATEST_RELEASE_URL \<notin>
     set (gets (log (snd (main (ex_world ''1.2.0'') (ex_args ''latest'' [WIN64]) (ex_state None))))) \<and>
   DOWNLOAD_URL_TEMPLATE (FactorioVersion_str \<lparr>major = 1, minor = 2, patch = 0\<rparr>)
       (build_value EXPANSION) (distro_value WIN64) \<notin>
     set (gets (log (snd (main (ex_world ''1.2.0'') (ex_args ''latest'' [WIN64]) (ex_state None)))))"
proof -
  let ?a = "ex_args ''latest'' [WIN64]"
  let ?w = "ex_world ''1.2.0''"
  let ?s = "ex_state None"
  have p: "parse_requested (version ?a) = Inr Latest"
    by (simp add: parse_requested_def ex_args_def)
  have g: "get_downloaded_version (version_file_of ?a) ?s = Inr None"
    by (simp add: get_downloaded_version_def ex_state_def)
  have r: "reconcile ?w (build ?a) Latest None ?s = (None, ?s)"
    by (simp add: reconcile_def)
  have m: "main ?w ?a ?s = fan_out ?w ?a Latest None ?s"
    using p g r by (rule main_proceeds)
  have e: "fst (run_tasks ?w ?a Latest (unlink (version_file_of ?a) ?s)) = []"
    by (simp add: run_tasks_errors task_result_def ex_eval py_eval)
  have 1: "fst (main ?w ?a ?s) = Returned"
    unfolding m using fan_out_marker [OF e] by simp
  have 2: "gets (log (snd (main ?w ?a ?s))) =
     [''https://www.factorio.com/get-download/latest/expansion/win64'']"
    unfolding m fan_out_gets by (simp add: ex_eval)
  have 3: "DOWNLOAD_URL_TEMPLATE (FactorioVersion_str \<lparr>major = 1, minor = 2, patch = 0\<rparr>)
       (build_value EXPANSION) (distro_value WIN64) =
     ''https://www.factorio.com/get-download/1.2.0/expansion/win64''"
    by (simp add: DOWNLOAD_URL_TEMPLATE_def py_eval)
  have 4: "LATEST_RELEASE_URL \<noteq> ''https://www.factorio.com/get-download/latest/expansion/win64''"
    by (simp add: LATEST_RELEASE_URL_def)
  from 1 2 3 4 show ?thesis
    by simp
qed

section \<open>Facts about the version file and the scenarios\<close>

lemma split_ws_token:
  assumes "tok \<noteq> []" and "\<forall>c \<in> set tok. \<not> isspace c" and "post = [] \<or> isspace (hd post)"
  shows "\<exists>rest. split_ws (tok @ post) = tok # rest"
  using assms
proof (induction tok)
  case Nil
  then show ?case by simp
next
  case (Cons c tok)
  show ?case
  proof (cases tok)
    case Nil
    with Cons.prems show ?thesis
      by (cases post) auto
  next
    case (Cons d tok')
    with Cons.prems Cons.IH obtain rest where "split_ws (tok @ post) = tok # rest"
      by auto
    with Cons Cons.prems show ?thesis
      by auto
  qed
qed

lemma split_ws_leading:
  "\<forall>c \<in> set pre. isspace c \<Longrightarrow> split_ws (pre @ s) = split_ws s"
  by (induction pre) simp_all

lemma split_ws_first:
  assumes "\<forall>c \<in> set pre. isspace c" and "tok \<noteq> []" and "\<forall>c \<in> set tok. \<not> isspace c"
    and "post = [] \<or> isspace (hd post)"
  shows "\<exists>rest. split_ws (pre @ tok @ post) = tok # rest"
  using split_ws_leading [OF assms(1)] split_ws_token [OF assms(2,3,4)] by simp

lemma split_ws_Nil_iff: "split_ws s = [] \<longleftrightarrow> (\<forall>c \<in> set s. isspace c)"
  by (induction s rule: split_ws.induct) (auto split: list.splits)

lemma strip_token: "\<forall>c \<in> set tok. \<not> isspace c \<Longrightarrow> strip tok = tok"
  by (simp add: strip_def strip_by_no_match)

lemma get_downloaded_version_latest:
  "files s p = Some (''latest'' @ [CHR 0x0A]) \<Longrightarrow> get_downloaded_version p s = Inl ValueError"
  by (simp add: get_downloaded_version_def py_eval)






section \<open>Reading the version file\<close>

text \<open>
  Claim C8, as the code has it. \<open>get_downloaded_version\<close> returns \<open>None\<close> exactly when the
  version file does not exist. When the content of the file is white space, then a token
  without white space, then nothing or something that starts with white space, the result
  is the version parsed from that token, and a \<open>ValueError\<close> when the token is not a version.
\<close>

theorem get_downloaded_version_reads:
  "(get_downloaded_version p s = Inr None \<longleftrightarrow> files s p = None) \<and>
   (files s p = Some (pre @ tok @ post) \<longrightarrow> (\<forall>c \<in> set pre. isspace c) \<longrightarrow> tok \<noteq> [] \<longrightarrow>
      (\<forall>c \<in> set tok. \<not> isspace c) \<longrightarrow> post = [] \<or> isspace (hd post) \<longrightarrow>
        get_downloaded_version p s =
          (case from_str tok of Inl e \<Rightarrow> Inl ValueError | Inr v \<Rightarrow> Inr (Some v)))"
proof (intro conjI impI)
  show "get_downloaded_version p s = Inr None \<longleftrightarrow> files s p = None"
    by (auto simp add: get_downloaded_version_def split: option.splits list.splits sum.splits)
next
  assume f: "files s p = Some (pre @ tok @ post)" and pre: "\<forall>c \<in> set pre. isspace c"
    and tok: "tok \<noteq> []" "\<forall>c \<in> set tok. \<not> isspace c" and post: "post = [] \<or> isspace (hd post)"
  obtain rest where sp: "split_ws (pre @ tok @ post) = tok # rest"
    using split_ws_first [OF pre tok post] by blast
  have st: "strip tok = tok"
    using tok(2) by (rule strip_token)
  show "get_downloaded_version p s =
          (case from_str tok of Inl e \<Rightarrow> Inl ValueError | Inr v \<Rightarrow> Inr (Some v))"
    using from_str_Inl [of tok]
    by (simp add: get_downloaded_version_def f sp st split: sum.splits)
qed

theorem get_downloaded_version_reads_witness:
  "files (ex_state (Some (''1.1.0'' @ [CHR 0x0A]))) [''out'', ''version.txt''] =
     Some ([] @ ''1.1.0'' @ [CHR 0x0A]) \<and>
   isspace (hd [CHR 0x0A]) \<and>
   get_downloaded_version [''out'', ''version.txt''] (ex_state (Some (''1.1.0'' @ [CHR 0x0A]))) =
     Inr (Some \<lparr>major = 1, minor = 1, patch = 0\<rparr>) \<and>
   (get_downloaded_version [''out'', ''version.txt''] (ex_state None) = Inr None) \<and>
   files (ex_state None) [''out'', ''version.txt''] = None"
proof -
  let ?s = "ex_state (Some (''1.1.0'' @ [CHR 0x0A]))"
  let ?p = "[''out'', ''version.txt'']"
  have f: "files ?s ?p = Some ([] @ ''1.1.0'' @ [CHR 0x0A])"
    by (simp add: ex_state_def)
  have pre: "\<forall>c \<in> set ([] :: string). isspace c"
    by simp
  have tok: "''1.1.0'' \<noteq> []" "\<forall>c \<in> set ''1.1.0''. \<not> isspace c"
    by (simp_all add: isspace_def)
  have post: "[CHR 0x0A] = [] \<or> isspace (hd [CHR 0x0A])"
    by (simp add: isspace_def)
  have v: "from_str ''1.1.0'' = Inr \<lparr>major = 1, minor = 1, patch = 0\<rparr>"
    by (simp add: py_eval)
  have n: "files (ex_state None) ?p = None"
    by (simp add: ex_state_def)
  from get_downloaded_version_reads [of ?p ?s "[]" "''1.1.0''" "[CHR 0x0A]"] f pre tok post
  have 1: "get_downloaded_version ?p ?s =
             (case from_str ''1.1.0'' of Inl e \<Rightarrow> Inl ValueError | Inr v \<Rightarrow> Inr (Some v))"
    by blast
  from get_downloaded_version_reads [of ?p "ex_state None" "[]" "[]" "[]"] n
  have 2: "get_downloaded_version ?p (ex_state None) = Inr None"
    by blast
  from 1 2 f post n show ?thesis
    by (simp add: v)
qed

text \<open>
  Claim C8 as stated fails on a version file without any token: for an empty file, and for
  one that holds a line break only, indexing the empty list of tokens raises \<open>IndexError\<close>,
  which is not the error of parsing a version.
\<close>

theorem get_downloaded_version_empty:
  "files (ex_state (Some [])) [''out'', ''version.txt''] = Some [] \<and>
   get_downloaded_version [''out'', ''version.txt''] (ex_state (Some [])) = Inl IndexError \<and>
   get_downloaded_version [''out'', ''version.txt''] (ex_state (Some [])) \<noteq> Inl ValueError \<and>
   files (ex_state (Some [CHR 0x0A])) [''out'', ''version.txt''] = Some [CHR 0x0A] \<and>
   get_downloaded_version [''out'', ''version.txt''] (ex_state (Some [CHR 0x0A])) = Inl IndexError"
  by (simp add: get_downloaded_version_def ex_state_def isspace_def)

section \<open>The decision with a version file present\<close>





section \<open>The version file after a first run for the latest release\<close>

text \<open>
  Claim C10. Without a version file and with the request \<open>latest\<close>, a run whose download
  tasks all succeed returns and leaves a version file that holds the word \<open>latest\<close> and a
  line break; reading that file as the next run would raises \<open>ValueError\<close>.
\<close>

theorem latest_without_marker:
  assumes "version a = ''latest''"
    and "files s (version_file_of a) = None"
    and "fst (run_tasks w a Latest (unlink (version_file_of a) s)) = []"
  shows "fst (main w a s) = Returned \<and>
         files (snd (main w a s)) (version_file_of a) = Some (''latest'' @ [CHR 0x0A]) \<and>
         get_downloaded_version (version_file_of a) (snd (main w a s)) = Inl ValueError"
proof -
  have p: "parse_requested (version a) = Inr Latest"
    using assms(1) by (simp add: parse_requested_latest)
  have g: "get_downloaded_version (version_file_of a) s = Inr None"
    using assms(2) by (simp add: get_downloaded_version_def)
  have r: "reconcile w (build a) Latest None s = (None, s)"
    by (simp add: reconcile_def)
  have m: "main w a s = fan_out w a Latest None s"
    using p g r by (rule main_proceeds)
  have t: "marker_text Latest None = ''latest'' @ [CHR 0x0A]"
    by (simp add: marker_text_def)
  have 1: "fst (main w a s) = Returned"
    and 2: "files (snd (main w a s)) (version_file_of a) = Some (''latest'' @ [CHR 0x0A])"
    using fan_out_marker [OF assms(3), of None] unfolding m t by simp_all
  from get_downloaded_version_latest [OF 2] 1 2 show ?thesis
    by simp
qed

theorem latest_without_marker_witness:
  "version (ex_args ''latest'' [WIN64, OSX]) = ''latest'' \<and>
   files (ex_state None) (version_file_of (ex_args ''latest'' [WIN64, OSX])) = None \<and>
   fst (run_tasks (ex_world ''1.2.0'') (ex_args ''latest'' [WIN64, OSX]) Latest
          (unlink (version_file_of (ex_args ''latest'' [WIN64, OSX])) (ex_state None))) = [] \<and>
   fst (main (ex_world ''1.2.0'') (ex_args ''latest'' [WIN64, OSX]) (ex_state None)) = Returned \<and>
   files (snd (main (ex_world ''1.2.0'') (ex_args ''latest'' [WIN64, OSX]) (ex_state None)))
     [''out'', ''version.txt''] = Some (''latest'' @ [CHR 0x0A]) \<and>
   get_downloaded_version [''out'', ''version.txt'']
     (snd (main (ex_world ''1.2.0'') (ex_args ''latest'' [WIN64, OSX]) (ex_state None))) =
     Inl ValueError"
proof -
  let ?a = "ex_args ''latest'' [WIN64, OSX]"
  let ?w = "ex_world ''1.2.0''"
  let ?s = "ex_state None"
  have v: "version ?a = ''latest''"
    by (simp add: ex_args_def)
  have n: "files ?s (version_file_of ?a) = None"
    by (simp add: ex_state_def)
  have e: "fst (run_tasks ?w ?a Latest (unlink (version_file_of ?a) ?s)) = []"
    by (simp add: run_tasks_errors task_result_def ex_eval py_eval)
  have vf: "version_file_of ?a = [''out'', ''version.txt'']"
    by (simp add: ex_eval)
  from latest_without_marker [OF v n e] v n e show ?thesis
    unfolding vf by blast
qed

end
